theory Spec2Isabelle
  imports Main
begin

section \<open>The Date object\<close>

text \<open>
  The library computes with the built-in \<^verbatim>\<open>Date\<close> object of the language. A
  \<^verbatim>\<open>Date\<close> is its time value: the milliseconds since the epoch, an integer.
  The operations below are the abstract operations of ECMA-262 (section "Date
  Objects"), under the names the standard gives them. Three things are fixed:
  the local time zone has offset zero and no daylight saving, so that local
  time and the time value coincide (the library only ever looks at local
  fields, and the spec excludes time zones); a time value is taken as it is
  computed, where the standard clips it (see \<open>TimeClip\<close> below); and the numbers
  of the program are integers, exact at any size.
\<close>

type_synonym Date = int

definition msPerDay :: int where
  "msPerDay = 86400000"

definition Day :: "int \<Rightarrow> int" where
  "Day t = t div msPerDay"

definition TimeWithinDay :: "int \<Rightarrow> int" where
  "TimeWithinDay t = t mod msPerDay"

definition DayFromYear :: "int \<Rightarrow> int" where
  "DayFromYear y =
     365 * (y - 1970) + (y - 1969) div 4 - (y - 1901) div 100 + (y - 1601) div 400"

definition DaysInYear :: "int \<Rightarrow> int" where
  "DaysInYear y =
     (if y mod 4 \<noteq> 0 then 365
      else if y mod 100 \<noteq> 0 then 366
      else if y mod 400 \<noteq> 0 then 365
      else 366)"

text \<open>
  The standard defines the year of a time value as the largest \<open>y\<close> whose first
  day is not after it. \<open>YearFromDay\<close> computes that year: the mean length of a
  year gives a guess that is off by at most one, and the guess is corrected.
  Lemma \<open>YearFromDay_greatest\<close> below shows that it is the year of the standard.
\<close>

definition YearFromDay :: "int \<Rightarrow> int" where
  "YearFromDay d =
     (let y = 1970 + (400 * d) div 146097
      in if DayFromYear (y + 1) \<le> d then y + 1
         else if DayFromYear y \<le> d then y
         else y - 1)"

definition YearFromTime :: "int \<Rightarrow> int" where
  "YearFromTime t = YearFromDay (Day t)"

definition InLeapYear :: "int \<Rightarrow> int" where
  "InLeapYear t = (if DaysInYear (YearFromTime t) = 366 then 1 else 0)"

definition DayWithinYear :: "int \<Rightarrow> int" where
  "DayWithinYear t = Day t - DayFromYear (YearFromTime t)"

definition MonthFromTime :: "int \<Rightarrow> int" where
  "MonthFromTime t =
     (let d = DayWithinYear t; l = InLeapYear t
      in if d < 31 then 0
         else if d < 59 + l then 1
         else if d < 90 + l then 2
         else if d < 120 + l then 3
         else if d < 151 + l then 4
         else if d < 181 + l then 5
         else if d < 212 + l then 6
         else if d < 243 + l then 7
         else if d < 273 + l then 8
         else if d < 304 + l then 9
         else if d < 334 + l then 10
         else 11)"

definition DateFromTime :: "int \<Rightarrow> int" where
  "DateFromTime t =
     (let d = DayWithinYear t; l = InLeapYear t; m = MonthFromTime t
      in if m = 0 then d + 1
         else if m = 1 then d - 30
         else if m = 2 then d - 58 - l
         else if m = 3 then d - 89 - l
         else if m = 4 then d - 119 - l
         else if m = 5 then d - 150 - l
         else if m = 6 then d - 180 - l
         else if m = 7 then d - 211 - l
         else if m = 8 then d - 242 - l
         else if m = 9 then d - 272 - l
         else if m = 10 then d - 303 - l
         else d - 333 - l)"

definition WeekDay :: "int \<Rightarrow> int" where
  "WeekDay t = (Day t + 4) mod 7"

text \<open>
  \<open>MonthStart leap mn\<close> is the day within the year on which month \<open>mn\<close>
  (0 to 11) starts; \<open>MakeDay\<close> finds the first day of month \<open>month\<close> of
  \<open>year\<close>, the month carried into the year when it is outside 0 to 11, and adds
  \<open>date - 1\<close> days: a day that the month does not have runs into the
  neighbouring months.
\<close>

definition MonthStart :: "int \<Rightarrow> int \<Rightarrow> int" where
  "MonthStart l mn =
     (if mn = 0 then 0
      else if mn = 1 then 31
      else if mn = 2 then 59 + l
      else if mn = 3 then 90 + l
      else if mn = 4 then 120 + l
      else if mn = 5 then 151 + l
      else if mn = 6 then 181 + l
      else if mn = 7 then 212 + l
      else if mn = 8 then 243 + l
      else if mn = 9 then 273 + l
      else if mn = 10 then 304 + l
      else 334 + l)"

definition MakeDay :: "int \<Rightarrow> int \<Rightarrow> int \<Rightarrow> int" where
  "MakeDay year month date =
     (let ym = year + month div 12; mn = month mod 12;
          l = (if DaysInYear ym = 366 then 1 else 0)
      in DayFromYear ym + MonthStart l mn + date - 1)"


definition MakeDate :: "int \<Rightarrow> int \<Rightarrow> int" where
  "MakeDate day time = day * msPerDay + time"

text \<open>
  \<^verbatim>\<open>new Date(year, monthIndex, day)\<close>: midnight of that day; a year from 0 to 99
  stands for 1900 + year.
\<close>

definition newDate :: "int \<Rightarrow> int \<Rightarrow> int \<Rightarrow> Date" where
  "newDate year monthIndex day =
     (let yr = (if 0 \<le> year \<and> year \<le> 99 then 1900 + year else year)
      in MakeDate (MakeDay yr monthIndex day) 0)"


definition getFullYear :: "Date \<Rightarrow> int" where
  "getFullYear t = YearFromTime t"

definition getMonth :: "Date \<Rightarrow> int" where
  "getMonth t = MonthFromTime t"

definition getDate :: "Date \<Rightarrow> int" where
  "getDate t = DateFromTime t"

definition getDay :: "Date \<Rightarrow> int" where
  "getDay t = WeekDay t"

definition setDate :: "Date \<Rightarrow> int \<Rightarrow> Date" where
  "setDate t dt = MakeDate (MakeDay (YearFromTime t) (MonthFromTime t) dt) (TimeWithinDay t)"


section \<open>Strings and numbers\<close>

text \<open>
  A string is a list of characters. The white space that \<^verbatim>\<open>trim\<close> and
  \<^verbatim>\<open>parseInt\<close> strip is tab, line feed, vertical tab, form feed, carriage
  return, space and the no-break space; a digit is one of 0 to 9.
\<close>

definition isWhiteSpace :: "char \<Rightarrow> bool" where
  "isWhiteSpace c =
     (c \<in> set [CHR 0x09, CHR 0x0A, CHR 0x0B, CHR 0x0C, CHR 0x0D, CHR 0x20, CHR 0xA0])"

definition isDigit :: "char \<Rightarrow> bool" where
  "isDigit c = (48 \<le> (of_char c :: nat) \<and> (of_char c :: nat) \<le> 57)"

definition digitValue :: "char \<Rightarrow> int" where
  "digitValue c = int (of_char c) - 48"

definition trim :: "string \<Rightarrow> string" where
  "trim s = rev (dropWhile isWhiteSpace (rev (dropWhile isWhiteSpace s)))"

text \<open>\<^verbatim>\<open>s.split(sep)\<close> for a separator of one character: never the empty list.\<close>

fun str_split :: "char \<Rightarrow> string \<Rightarrow> string list" where
  "str_split sep [] = [[]]"
| "str_split sep (c # cs) =
     (if c = sep then [] # str_split sep cs
      else (c # hd (str_split sep cs)) # tl (str_split sep cs))"

definition str_startsWith :: "string \<Rightarrow> string \<Rightarrow> bool" where
  "str_startsWith s p = (take (length p) s = p)"

fun str_includes :: "string \<Rightarrow> string \<Rightarrow> bool" where
  "str_includes [] p = (p = [])"
| "str_includes (c # cs) p = (str_startsWith (c # cs) p \<or> str_includes cs p)"

definition str_endsWith :: "string \<Rightarrow> string \<Rightarrow> bool" where
  "str_endsWith s p = (length p \<le> length s \<and> drop (length s - length p) s = p)"

text \<open>
  \<^verbatim>\<open>parseInt(s, 10)\<close>: leading white space is skipped, a sign is read, then the
  longest run of digits; whatever follows the digits is ignored. Without a digit
  there the result is \<^verbatim>\<open>NaN\<close>, here \<open>None\<close>.
\<close>

definition digitsValue :: "string \<Rightarrow> int" where
  "digitsValue ds = foldl (\<lambda>acc c. 10 * acc + digitValue c) 0 ds"

definition parseInt :: "string \<Rightarrow> int option" where
  "parseInt s =
     (let s1 = dropWhile isWhiteSpace s;
          sign = (case s1 of c # _ \<Rightarrow> if c = CHR ''-'' then - 1 else 1 | [] \<Rightarrow> (1::int));
          s2 = (case s1 of c # r \<Rightarrow> if c = CHR ''-'' \<or> c = CHR ''+'' then r else s1 | [] \<Rightarrow> s1);
          ds = takeWhile isDigit s2
      in if ds = [] then None else Some (sign * digitsValue ds))"

text \<open>The remainder operator \<^verbatim>\<open>%\<close> takes the sign of the dividend.\<close>

definition jsRem :: "int \<Rightarrow> int \<Rightarrow> int" where
  "jsRem a n = (if 0 \<le> a then a mod n else - ((- a) mod n))"

section \<open>Entries\<close>

text \<open>
  The three classes that extend \<^verbatim>\<open>Entry\<close>, with their fields in the order of the
  constructors: the name first, the optional source last.
\<close>

datatype Entry =
    ExactDateEntry string int int "string option"
  | ExactDateWithYearEntry string int int int "string option"
  | RelativeDateEntry string int int int "string option"

subsection \<open>ExactDateEntry\<close>

definition ExactDateEntry_getNextOccurrence :: "int \<Rightarrow> int \<Rightarrow> Date \<Rightarrow> Date" where
  "ExactDateEntry_getNextOccurrence mo dy fromDate =
     (let yr = getFullYear fromDate;
          nextDate = newDate yr (mo - 1) dy
      in if nextDate \<le> fromDate then newDate (yr + 1) (mo - 1) dy else nextDate)"

definition ExactDateEntry_occursOn :: "int \<Rightarrow> int \<Rightarrow> Date \<Rightarrow> bool" where
  "ExactDateEntry_occursOn mo dy date = (getMonth date = mo - 1 \<and> getDate date = dy)"

subsection \<open>ExactDateWithYearEntry\<close>

definition ExactDateWithYearEntry_getNextOccurrence :: "int \<Rightarrow> int \<Rightarrow> Date \<Rightarrow> Date" where
  "ExactDateWithYearEntry_getNextOccurrence mo dy fromDate =
     (let currentYear = getFullYear fromDate;
          anniversaryDate = newDate currentYear (mo - 1) dy
      in if anniversaryDate \<le> fromDate then newDate (currentYear + 1) (mo - 1) dy
         else anniversaryDate)"

definition ExactDateWithYearEntry_occursOn :: "int \<Rightarrow> int \<Rightarrow> int \<Rightarrow> Date \<Rightarrow> bool" where
  "ExactDateWithYearEntry_occursOn mo dy yr date =
     (getFullYear date = yr \<and> getMonth date = mo - 1 \<and> getDate date = dy)"

definition ExactDateWithYearEntry_getAnniversary :: "int \<Rightarrow> int \<Rightarrow> int \<Rightarrow> Date" where
  "ExactDateWithYearEntry_getAnniversary mo dy yr' = newDate yr' (mo - 1) dy"

definition ExactDateWithYearEntry_getYearsSince :: "int \<Rightarrow> Date \<Rightarrow> int" where
  "ExactDateWithYearEntry_getYearsSince yr date = getFullYear date - yr"

subsection \<open>RelativeDateEntry\<close>

definition DAYS_OF_WEEK :: "string list" where
  "DAYS_OF_WEEK =
     [''Sunday'', ''Monday'', ''Tuesday'', ''Wednesday'', ''Thursday'', ''Friday'', ''Saturday'']"

definition MONTHS :: "string list" where
  "MONTHS =
     [''Jan'', ''Feb'', ''Mar'', ''Apr'', ''May'', ''Jun'',
      ''Jul'', ''Aug'', ''Sep'', ''Oct'', ''Nov'', ''Dec'']"

datatype ParseError = InvalidRelativeDateFormat | InvalidDayOfWeek | InvalidMonth

record RelativeDate =
  occurrence :: int
  dayOfWeek :: int
  month :: int

text \<open>
  The two loops of \<^verbatim>\<open>parseRelativeDate\<close>: the index, counted from \<open>i\<close>, of the
  first name of the list that is not empty and passes the test; \<open>- 1\<close> when the
  loop ends without one.
\<close>

fun firstIndex :: "(string \<Rightarrow> bool) \<Rightarrow> string list \<Rightarrow> int \<Rightarrow> int" where
  "firstIndex p [] i = - 1"
| "firstIndex p (n # ns) i = (if n \<noteq> [] \<and> p n then i else firstIndex p ns (i + 1))"

definition parseRelativeDate :: "string \<Rightarrow> ParseError + RelativeDate" where
  "parseRelativeDate dateStr =
     (case dateStr of
        [] \<Rightarrow> Inl InvalidRelativeDateFormat
      | c # _ \<Rightarrow>
          if \<not> isDigit c then Inl InvalidRelativeDateFormat
          else
            let occ = digitValue c;
                dow = firstIndex (str_includes dateStr) DAYS_OF_WEEK 0
            in if dow = - 1 then Inl InvalidDayOfWeek
               else
                 let i = firstIndex (str_endsWith dateStr) MONTHS 0
                 in if i = - 1 then Inl InvalidMonth
                    else Inr \<lparr>occurrence = occ, dayOfWeek = dow, month = i + 1\<rparr>)"

definition getNthWeekdayOfMonth :: "int \<Rightarrow> int \<Rightarrow> int \<Rightarrow> int \<Rightarrow> Date option" where
  "getNthWeekdayOfMonth yr mo dow occ =
     (let firstDay = newDate yr (mo - 1) 1;
          firstDayOfWeek = getDay firstDay;
          daysToAdd = jsRem (dow - firstDayOfWeek + 7) 7 + (occ - 1) * 7;
          targetDate = newDate yr (mo - 1) (1 + daysToAdd)
      in if getMonth targetDate \<noteq> mo - 1 then None else Some targetDate)"

definition RelativeDateEntry_getNextOccurrence :: "int \<Rightarrow> int \<Rightarrow> int \<Rightarrow> Date \<Rightarrow> Date" where
  "RelativeDateEntry_getNextOccurrence occ dow mo fromDate =
     (let yr = getFullYear fromDate;
          date = getNthWeekdayOfMonth yr mo dow occ;
          date' = (case date of
                     None \<Rightarrow> getNthWeekdayOfMonth (yr + 1) mo dow occ
                   | Some d \<Rightarrow>
                       if d \<le> fromDate then getNthWeekdayOfMonth (yr + 1) mo dow occ
                       else Some d)
      in case date' of None \<Rightarrow> newDate 9999 11 31 | Some d \<Rightarrow> d)"

definition RelativeDateEntry_occursOn :: "int \<Rightarrow> int \<Rightarrow> int \<Rightarrow> Date \<Rightarrow> bool" where
  "RelativeDateEntry_occursOn occ dow mo date =
     (if getMonth date \<noteq> mo - 1 then False
      else if getDay date \<noteq> dow then False
      else
        let firstDay = newDate (getFullYear date) (mo - 1) 1;
            firstDayOfWeek = getDay firstDay;
            daysToAdd = jsRem (dow - firstDayOfWeek + 7) 7;
            expectedDay = 1 + daysToAdd + (occ - 1) * 7
        in getDate date = expectedDay)"

subsection \<open>The methods of an entry, by its class\<close>

fun getNextOccurrence :: "Entry \<Rightarrow> Date \<Rightarrow> Date" where
  "getNextOccurrence (ExactDateEntry nm mo dy src) fromDate =
     ExactDateEntry_getNextOccurrence mo dy fromDate"
| "getNextOccurrence (ExactDateWithYearEntry nm mo dy yr src) fromDate =
     ExactDateWithYearEntry_getNextOccurrence mo dy fromDate"
| "getNextOccurrence (RelativeDateEntry nm occ dow mo src) fromDate =
     RelativeDateEntry_getNextOccurrence occ dow mo fromDate"

fun occursOn :: "Entry \<Rightarrow> Date \<Rightarrow> bool" where
  "occursOn (ExactDateEntry nm mo dy src) date = ExactDateEntry_occursOn mo dy date"
| "occursOn (ExactDateWithYearEntry nm mo dy yr src) date =
     ExactDateWithYearEntry_occursOn mo dy yr date"
| "occursOn (RelativeDateEntry nm occ dow mo src) date =
     RelativeDateEntry_occursOn occ dow mo date"

section \<open>Parsing a line\<close>

definition parseCSVLine :: "string \<Rightarrow> string option \<Rightarrow> Entry option" where
  "parseCSVLine line src =
     (case str_split CHR '','' line of
        p0 # p1 # rest \<Rightarrow>
          let nm = trim p0; dateStr = trim p1
          in if nm = [] \<or> dateStr = [] then None
             else if str_includes dateStr ''/'' then
               (case str_split CHR ''/'' dateStr of
                  monthStr # dayStr # _ \<Rightarrow>
                    if monthStr = [] \<or> dayStr = [] then None
                    else
                      (case (parseInt monthStr, parseInt dayStr) of
                         (Some mo, Some dy) \<Rightarrow>
                           (case rest of
                              [] \<Rightarrow> Some (ExactDateEntry nm mo dy src)
                            | p2 # _ \<Rightarrow>
                                if trim p2 = [] then Some (ExactDateEntry nm mo dy src)
                                else
                                  (case parseInt (trim p2) of
                                     Some yr \<Rightarrow> Some (ExactDateWithYearEntry nm mo dy yr src)
                                   | None \<Rightarrow> Some (ExactDateEntry nm mo dy src)))
                       | _ \<Rightarrow> None)
                | _ \<Rightarrow> None)
             else
               (case parseRelativeDate dateStr of
                  Inr r \<Rightarrow>
                    Some (RelativeDateEntry nm (occurrence r) (dayOfWeek r) (month r) src)
                | Inl _ \<Rightarrow> None)
      | _ \<Rightarrow> None)"

section \<open>Queries\<close>

text \<open>
  \<^verbatim>\<open>Array.prototype.sort\<close> with a comparator is stable: elements that compare
  equal keep their order. Insertion from the right is the stable sort.
\<close>

fun insertSorted :: "('a \<Rightarrow> 'a \<Rightarrow> int) \<Rightarrow> 'a \<Rightarrow> 'a list \<Rightarrow> 'a list" where
  "insertSorted cmp x [] = [x]"
| "insertSorted cmp x (y # ys) =
     (if cmp x y \<le> 0 then x # y # ys else y # insertSorted cmp x ys)"

definition array_sort :: "('a \<Rightarrow> 'a \<Rightarrow> int) \<Rightarrow> 'a list \<Rightarrow> 'a list" where
  "array_sort cmp xs = foldr (insertSorted cmp) xs []"

definition getEntriesInNextDays :: "Entry list \<Rightarrow> int \<Rightarrow> Date \<Rightarrow> (Entry \<times> Date) list" where
  "getEntriesInNextDays entries days fromDate =
     (let endDate = setDate fromDate (getDate fromDate + days)
      in array_sort (\<lambda>a b. snd a - snd b)
           (filter (\<lambda>(entry, date). fromDate \<le> date \<and> date \<le> endDate)
              (map (\<lambda>entry. (entry, getNextOccurrence entry fromDate)) entries)))"

definition getEntriesOnMonthDay :: "Entry list \<Rightarrow> int \<Rightarrow> int \<Rightarrow> Entry list" where
  "getEntriesOnMonthDay entries mo dy =
     filter (\<lambda>entry. case entry of
                ExactDateEntry _ m d _ \<Rightarrow> m = mo \<and> d = dy
              | ExactDateWithYearEntry _ m d _ _ \<Rightarrow> m = mo \<and> d = dy
              | RelativeDateEntry _ _ _ _ _ \<Rightarrow> False) entries"

section \<open>Notions used to state the properties\<close>


text \<open>The month and day fields of the two classes that have them.\<close>

fun rawMonthDay :: "Entry \<Rightarrow> (int \<times> int) option" where
  "rawMonthDay (ExactDateEntry nm mo dy src) = Some (mo, dy)"
| "rawMonthDay (ExactDateWithYearEntry nm mo dy yr src) = Some (mo, dy)"
| "rawMonthDay (RelativeDateEntry nm occ dow mo src) = None"

fun isRelativeDateEntry :: "Entry \<Rightarrow> bool" where
  "isRelativeDateEntry (RelativeDateEntry nm occ dow mo src) = True"
| "isRelativeDateEntry _ = False"

text \<open>
  A valid integer, as the spec words it: the whole string is a sign, if any, and
  then digits, at least one.
\<close>

definition isInteger :: "string \<Rightarrow> bool" where
  "isInteger s =
     (case s of
        [] \<Rightarrow> False
      | c # r \<Rightarrow>
          if c = CHR ''-'' \<or> c = CHR ''+'' then r \<noteq> [] \<and> list_all isDigit r
          else list_all isDigit s)"

text \<open>
  What \<^verbatim>\<open>parseInt\<close> asks of a string: after white space and a sign, if any, a
  digit comes next.
\<close>

definition hasLeadingInteger :: "string \<Rightarrow> bool" where
  "hasLeadingInteger s =
     (case dropWhile isWhiteSpace s of
        [] \<Rightarrow> False
      | c # r \<Rightarrow>
          if c = CHR ''-'' \<or> c = CHR ''+'' then (case r of [] \<Rightarrow> False | c' # _ \<Rightarrow> isDigit c')
          else isDigit c)"

section \<open>Lemmas about the calendar\<close>

subsection \<open>Years\<close>

lemma div_step:
  fixes n k :: int
  assumes "0 < k"
  shows "(n + 1) div k = n div k + (if (n + 1) mod k = 0 then 1 else 0)"
proof -
  define q where "q = n div k"
  define r where "r = n mod k"
  have n: "n = k * q + r" by (simp add: q_def r_def)
  have r: "0 \<le> r" "r < k" using assms by (simp_all add: r_def)
  show ?thesis
  proof (cases "r + 1 = k")
    case True
    then have "n + 1 = k * (q + 1)" using n by (simp add: algebra_simps)
    then have "(n + 1) div k = q + 1" "(n + 1) mod k = 0" using assms by simp_all
    then show ?thesis by (simp add: q_def)
  next
    case False
    then have r1: "0 \<le> r + 1" "r + 1 < k" using r by simp_all
    have e: "n + 1 = (r + 1) + k * q" using n by simp
    have "(n + 1) div k = q" "(n + 1) mod k = r + 1"
      unfolding e using r1 assms by (simp_all add: div_pos_pos_trivial mod_pos_pos_trivial)
    then show ?thesis using r by (simp add: q_def)
  qed
qed

lemma mod_shift4: "((y::int) - 1968) mod 4 = y mod 4"
proof -
  have "(y - 1968) mod 4 = (y + 4 * (-492)) mod 4" by simp
  also have "\<dots> = y mod 4" by (rule mod_mult_self2)
  finally show ?thesis .
qed

lemma mod_shift100: "((y::int) - 1900) mod 100 = y mod 100"
proof -
  have "(y - 1900) mod 100 = (y + 100 * (-19)) mod 100" by simp
  also have "\<dots> = y mod 100" by (rule mod_mult_self2)
  finally show ?thesis .
qed

lemma mod_shift400: "((y::int) - 1600) mod 400 = y mod 400"
proof -
  have "(y - 1600) mod 400 = (y + 400 * (-4)) mod 400" by simp
  also have "\<dots> = y mod 400" by (rule mod_mult_self2)
  finally show ?thesis .
qed

lemma mod400_100: "(y::int) mod 400 = 0 \<Longrightarrow> y mod 100 = 0"
proof -
  assume "y mod 400 = 0"
  then have "400 dvd y" by (simp add: dvd_eq_mod_eq_0)
  moreover have "(100::int) dvd 400" by simp
  ultimately have "100 dvd y" by (rule dvd_trans[rotated])
  then show ?thesis by (simp add: dvd_eq_mod_eq_0)
qed

lemma mod100_4: "(y::int) mod 100 = 0 \<Longrightarrow> y mod 4 = 0"
proof -
  assume "y mod 100 = 0"
  then have "100 dvd y" by (simp add: dvd_eq_mod_eq_0)
  moreover have "(4::int) dvd 100" by simp
  ultimately have "4 dvd y" by (rule dvd_trans[rotated])
  then show ?thesis by (simp add: dvd_eq_mod_eq_0)
qed

lemma DayFromYear_Suc: "DayFromYear (y + 1) = DayFromYear y + DaysInYear y"
proof -
  define A where "A = (y - 1969) div 4"
  define B where "B = (y - 1901) div 100"
  define C where "C = (y - 1601) div 400"
  define i4 :: int where "i4 = (if y mod 4 = 0 then 1 else 0)"
  define i100 :: int where "i100 = (if y mod 100 = 0 then 1 else 0)"
  define i400 :: int where "i400 = (if y mod 400 = 0 then 1 else 0)"
  have a: "(y - 1968) div 4 = A + i4"
    using div_step[of 4 "y - 1969"] by (simp add: mod_shift4 A_def i4_def)
  have b: "(y - 1900) div 100 = B + i100"
    using div_step[of 100 "y - 1901"] by (simp add: mod_shift100 B_def i100_def)
  have c: "(y - 1600) div 400 = C + i400"
    using div_step[of 400 "y - 1601"] by (simp add: mod_shift400 C_def i400_def)
  have "DayFromYear (y + 1) =
          365 * (y - 1969) + (y - 1968) div 4 - (y - 1900) div 100 + (y - 1600) div 400"
    by (simp add: DayFromYear_def)
  then have l: "DayFromYear (y + 1) = 365 * y - 718685 + (A + i4) - (B + i100) + (C + i400)"
    unfolding a b c by simp
  have r: "DayFromYear y = 365 * y - 719050 + A - B + C"
    by (simp add: DayFromYear_def A_def B_def C_def)
  have d: "DaysInYear y = 365 + i4 - i100 + i400"
    using mod400_100[of y] mod100_4[of y]
    by (simp add: DaysInYear_def i4_def i100_def i400_def)
  show ?thesis unfolding l r d by simp
qed

lemma DayFromYear_bounds:
  "400 * DayFromYear y \<le> 146097 * y - 287810501"
  "146097 * y - 287811596 \<le> 400 * DayFromYear y"
proof -
  define a where "a = (y - 1969) div 4"
  define b where "b = (y - 1901) div 100"
  define c where "c = (y - 1601) div 400"
  have A: "4 * a \<le> y - 1969" "y - 1969 \<le> 4 * a + 3"
    by (simp_all add: a_def)
  have B: "100 * b \<le> y - 1901" "y - 1901 \<le> 100 * b + 99"
    by (simp_all add: b_def)
  have C: "400 * c \<le> y - 1601" "y - 1601 \<le> 400 * c + 399"
    by (simp_all add: c_def)
  have D: "400 * DayFromYear y = 146000 * y - 287620000 + 400 * a - 400 * b + 400 * c"
    by (simp add: DayFromYear_def a_def b_def c_def)
  show "400 * DayFromYear y \<le> 146097 * y - 287810501"
    unfolding D using A(1) B(2) C(1) by linarith
  show "146097 * y - 287811596 \<le> 400 * DayFromYear y"
    unfolding D using A(2) B(1) C(2) by linarith
qed

lemma DayFromYear_less: 
  assumes "y < y'" shows "DayFromYear y < DayFromYear y'"
proof -
  have "400 * DayFromYear y < 400 * DayFromYear y'"
    using DayFromYear_bounds(1)[of y] DayFromYear_bounds(2)[of y'] assms by linarith
  then show ?thesis by simp
qed

lemma DayFromYear_mono: "y \<le> y' \<Longrightarrow> DayFromYear y \<le> DayFromYear y'"
  using DayFromYear_less[of y y'] by (cases "y = y'") auto

lemma YearFromDay_guess:
  "DayFromYear (1969 + (400 * d) div 146097) \<le> d"
  "d < DayFromYear (1972 + (400 * d) div 146097)"
proof -
  define q where "q = (400 * d) div 146097"
  have Q: "146097 * q \<le> 400 * d" "400 * d < 146097 * q + 146097"
    by (simp_all add: q_def)
  have "400 * DayFromYear (1969 + q) \<le> 146097 * q - 145508"
    using DayFromYear_bounds(1)[of "1969 + q"] by (simp add: algebra_simps)
  then have "400 * DayFromYear (1969 + q) \<le> 400 * d"
    using Q(1) by linarith
  then show "DayFromYear (1969 + (400 * d) div 146097) \<le> d"
    by (simp add: q_def)
  have "146097 * q + 291688 \<le> 400 * DayFromYear (1972 + q)"
    using DayFromYear_bounds(2)[of "1972 + q"] by (simp add: algebra_simps)
  then have "400 * d < 400 * DayFromYear (1972 + q)"
    using Q(2) by linarith
  then show "d < DayFromYear (1972 + (400 * d) div 146097)"
    by (simp add: q_def)
qed

lemma YearFromDay_spec:
  "DayFromYear (YearFromDay d) \<le> d" "d < DayFromYear (YearFromDay d + 1)"
proof -
  define q where "q = (400 * d) div 146097"
  have g: "DayFromYear (1969 + q) \<le> d" "d < DayFromYear (1972 + q)"
    using YearFromDay_guess[of d] by (simp_all add: q_def)
  have y: "YearFromDay d =
             (if DayFromYear (1971 + q) \<le> d then 1971 + q
              else if DayFromYear (1970 + q) \<le> d then 1970 + q else 1969 + q)"
    by (simp add: YearFromDay_def Let_def q_def)
  show "DayFromYear (YearFromDay d) \<le> d"
    unfolding y using g(1) by simp
  show "d < DayFromYear (YearFromDay d + 1)"
    unfolding y using g(2) by simp
qed

lemma YearFromDay_unique:
  assumes "DayFromYear y \<le> d" "d < DayFromYear (y + 1)"
  shows "YearFromDay d = y"
proof (rule ccontr)
  assume ne: "YearFromDay d \<noteq> y"
  show False
  proof (cases "YearFromDay d < y")
    case True
    then have "DayFromYear (YearFromDay d + 1) \<le> DayFromYear y"
      by (intro DayFromYear_mono) simp
    then show False using YearFromDay_spec(2)[of d] assms(1) by linarith
  next
    case False
    then have "DayFromYear (y + 1) \<le> DayFromYear (YearFromDay d)"
      using ne by (intro DayFromYear_mono) simp
    then show False using YearFromDay_spec(1)[of d] assms(2) by linarith
  qed
qed

text \<open>
  So \<open>YearFromDay d\<close> is the largest year whose first day is not after day \<open>d\<close>,
  which is how the standard defines the year of a time value.
\<close>

lemma YearFromDay_greatest: "DayFromYear y \<le> d \<longleftrightarrow> y \<le> YearFromDay d"
proof
  assume a: "DayFromYear y \<le> d"
  show "y \<le> YearFromDay d"
  proof (rule ccontr)
    assume "\<not> y \<le> YearFromDay d"
    then have "DayFromYear (YearFromDay d + 1) \<le> DayFromYear y"
      by (intro DayFromYear_mono) simp
    then show False using YearFromDay_spec(2)[of d] a by linarith
  qed
next
  assume "y \<le> YearFromDay d"
  then have "DayFromYear y \<le> DayFromYear (YearFromDay d)" by (rule DayFromYear_mono)
  then show "DayFromYear y \<le> d" using YearFromDay_spec(1)[of d] by linarith
qed

subsection \<open>Days and times\<close>

lemma Day_MakeDate:
  assumes "0 \<le> tod" "tod < msPerDay"
  shows "Day (MakeDate d tod) = d"
proof -
  have "(d * 86400000 + tod) div 86400000 = d"
    using assms by (simp add: msPerDay_def div_pos_pos_trivial)
  then show ?thesis by (simp add: Day_def MakeDate_def msPerDay_def)
qed

lemma Day_MakeDate_0: "Day (MakeDate d 0) = d"
  by (rule Day_MakeDate) (simp_all add: msPerDay_def)

lemma TimeWithinDay_bounds: "0 \<le> TimeWithinDay t" "TimeWithinDay t < msPerDay"
  by (simp_all add: TimeWithinDay_def msPerDay_def)

lemma MakeDate_Day: "MakeDate (Day t) (TimeWithinDay t) = t"
  by (simp add: MakeDate_def Day_def TimeWithinDay_def)



subsection \<open>Months and days of the month\<close>

lemma DaysInYear_cases: "DaysInYear y = 365 \<or> DaysInYear y = 366"
  by (simp add: DaysInYear_def)

lemma DayWithinYear_bounds:
  "0 \<le> DayWithinYear t" "DayWithinYear t < DaysInYear (YearFromTime t)"
  using YearFromDay_spec[of "Day t"] DayFromYear_Suc[of "YearFromDay (Day t)"]
  by (simp_all add: DayWithinYear_def YearFromTime_def)

lemma MonthFromTime_range: "0 \<le> MonthFromTime t" "MonthFromTime t \<le> 11"
  by (simp_all add: MonthFromTime_def Let_def)

lemma MonthStart_DateFromTime:
  "MonthStart (InLeapYear t) (MonthFromTime t) + DateFromTime t - 1 = DayWithinYear t"
proof -
  define k where "k = DayWithinYear t"
  define l where "l = InLeapYear t"
  have k: "0 \<le> k" using DayWithinYear_bounds(1)[of t] by (simp add: k_def)
  have m: "MonthFromTime t =
     (if k < 31 then 0 else if k < 59 + l then 1 else if k < 90 + l then 2
      else if k < 120 + l then 3 else if k < 151 + l then 4 else if k < 181 + l then 5
      else if k < 212 + l then 6 else if k < 243 + l then 7 else if k < 273 + l then 8
      else if k < 304 + l then 9 else if k < 334 + l then 10 else 11)"
    by (simp add: MonthFromTime_def Let_def k_def l_def)
  show ?thesis
    unfolding DateFromTime_def Let_def MonthStart_def
    unfolding k_def[symmetric] l_def[symmetric] m
    by simp
qed

lemma MakeDay_of_fields:
  "MakeDay (YearFromTime t) (MonthFromTime t) dt = Day t + (dt - DateFromTime t)"
proof -
  have d: "MonthFromTime t div 12 = 0" "MonthFromTime t mod 12 = MonthFromTime t"
    using MonthFromTime_range[of t] by (simp_all add: div_pos_pos_trivial mod_pos_pos_trivial)
  have "MakeDay (YearFromTime t) (MonthFromTime t) dt =
          DayFromYear (YearFromTime t) + MonthStart (InLeapYear t) (MonthFromTime t) + dt - 1"
    by (simp add: MakeDay_def Let_def d InLeapYear_def)
  then show ?thesis
    using MonthStart_DateFromTime[of t] by (simp add: DayWithinYear_def)
qed

lemma setDate_adds_days: "setDate t (getDate t + n) = t + n * msPerDay"
proof -
  have "setDate t (getDate t + n) = MakeDate (Day t + n) (TimeWithinDay t)"
    by (simp add: setDate_def getDate_def MakeDay_of_fields)
  also have "\<dots> = MakeDate (Day t) (TimeWithinDay t) + n * msPerDay"
    by (simp add: MakeDate_def algebra_simps)
  finally show ?thesis by (simp add: MakeDate_Day)
qed

subsection \<open>Dates made from fields\<close>





lemma fields_of_day:
  assumes k: "0 \<le> k" "k < DaysInYear y" and t: "Day t = DayFromYear y + k"
  shows "YearFromTime t = y" "DayWithinYear t = k"
    "InLeapYear t = (if DaysInYear y = 366 then 1 else 0)"
proof -
  have "DayFromYear y \<le> Day t" "Day t < DayFromYear (y + 1)"
    using k t by (simp_all add: DayFromYear_Suc)
  then show y: "YearFromTime t = y"
    unfolding YearFromTime_def by (rule YearFromDay_unique)
  show "DayWithinYear t = k" by (simp add: DayWithinYear_def y t)
  show "InLeapYear t = (if DaysInYear y = 366 then 1 else 0)"
    by (simp add: InLeapYear_def y)
qed

lemma month_cases:
  fixes mn :: int
  assumes "0 \<le> mn" "mn \<le> 11"
  shows "mn \<in> {0, 1, 2, 3, 4, 5, 6, 7, 8, 9, 10, 11}"
proof -
  have "mn \<in> {0..11}" using assms by simp
  also have "{0..11} = set [0..(11::int)]" by simp
  also have "\<dots> = {0, 1, 2, 3, 4, 5, 6, 7, 8, 9, 10, 11}" by (simp add: upto.simps)
  finally show ?thesis .
qed



lemma Day_newDate:
  "Day (newDate y mi dt) = MakeDay (if 0 \<le> y \<and> y \<le> 99 then 1900 + y else y) mi dt"
  by (simp add: newDate_def Day_MakeDate_0)

subsection \<open>When a date keeps the fields it was made from\<close>


lemma day_31_within_year:
  fixes l mn dt :: int
  assumes "mn \<in> {0, 1, 2, 3, 4, 5, 6, 7, 8, 9, 10, 11}" "l \<in> {0, 1}"
    and "1 \<le> dt" "dt \<le> 31"
  shows "0 \<le> MonthStart l mn + dt - 1" "MonthStart l mn + dt - 1 < 365 + l"
  using assms
  by (elim insertE emptyE; simp add: MonthStart_def)+


lemma year_of_newDate:
  assumes mn: "0 \<le> mn" "mn \<le> 11" and dt: "1 \<le> dt" "dt \<le> 31"
  shows "getFullYear (newDate y mn dt) = (if 0 \<le> y \<and> y \<le> 99 then 1900 + y else y)"
proof -
  define yr where "yr = (if 0 \<le> y \<and> y \<le> 99 then 1900 + y else y)"
  define l :: int where "l = (if DaysInYear yr = 366 then 1 else 0)"
  define k where "k = MonthStart l mn + dt - 1"
  have l: "l \<in> {0, 1}" by (simp add: l_def)
  have dy: "DaysInYear yr = 365 + l" using DaysInYear_cases[of yr] by (auto simp: l_def)
  have d: "mn div 12 = 0" "mn mod 12 = mn"
    using mn by (simp_all add: div_pos_pos_trivial mod_pos_pos_trivial)
  have md: "Day (newDate y mn dt) = DayFromYear yr + k"
    by (simp add: Day_newDate MakeDay_def Let_def d k_def l_def yr_def)
  have kb: "0 \<le> k" "k < DaysInYear yr"
    using day_31_within_year[OF month_cases[OF mn] l dt] by (simp_all add: k_def dy)
  show ?thesis
    using fields_of_day(1)[OF kb md] by (simp add: getFullYear_def yr_def)
qed



section \<open>The fixed annual entry\<close>

subsection \<open>The entry occurs on its next occurrence\<close>




subsection \<open>Dates within the range of time values\<close>

lemma Day_le: "Day t * msPerDay \<le> t"
  using MakeDate_Day[of t] TimeWithinDay_bounds(1)[of t] by (simp add: MakeDate_def)





subsection \<open>The next occurrence is after the date\<close>




text \<open>
  The bounds of the data model are needed. The constructor accepts a day 0, and
  the line \<^verbatim>\<open>X,01/00\<close> parses to such an entry: from 31 December 2026 the date of
  this year is 31 December 2025, not after, and the date of the next year is
  31 December 2026 itself, which is returned.
\<close>

lemma FixedAnnual_day_0_not_after:
  "parseCSVLine ''X,01/00'' None = Some (ExactDateEntry ''X'' 1 0 None)
   \<and> getNextOccurrence (ExactDateEntry ''X'' 1 0 None) (newDate 2026 11 31) = newDate 2026 11 31"
  by code_simp

section \<open>The window of the next days\<close>

text \<open>
  With the comparator of the queries, the difference of two dates, the sort of
  the model is the stable sort of the library by the date as key.
\<close>

lemma insertSorted_insort_key:
  fixes f :: "'a \<Rightarrow> int"
  shows "insertSorted (\<lambda>a b. f a - f b) x ys = insort_key f x ys"
  by (induction ys) simp_all

lemma array_sort_sort_key:
  fixes f :: "'a \<Rightarrow> int"
  shows "array_sort (\<lambda>a b. f a - f b) xs = sort_key f xs"
  by (induction xs) (simp_all add: array_sort_def insertSorted_insort_key)

lemma getEntriesInNextDays_eq:
  "getEntriesInNextDays entries days fromDate =
     sort_key snd
       (filter (\<lambda>(entry, date). fromDate \<le> date \<and> date \<le> fromDate + days * msPerDay)
          (map (\<lambda>entry. (entry, getNextOccurrence entry fromDate)) entries))"
  by (simp add: getEntriesInNextDays_def Let_def setDate_adds_days array_sort_sort_key)

text \<open>
  Claim C4. For every list of entries, every number of days (zero, more, or
  less) and every date, the dates of the result of \<^verbatim>\<open>getEntriesInNextDays\<close>
  ascend, and each lies from the date given to that date and the days later,
  both ends included. The end of the window, which the code finds with
  \<^verbatim>\<open>setDate\<close>, is the date given and \<open>days\<close> times the milliseconds of a day.
\<close>

theorem getEntriesInNextDays_sorted_in_window:
  "sorted (map snd (getEntriesInNextDays entries days fromDate))
   \<and> (\<forall>(entry, date) \<in> set (getEntriesInNextDays entries days fromDate).
         fromDate \<le> date \<and> date \<le> fromDate + days * msPerDay)"
  unfolding getEntriesInNextDays_eq by auto

text \<open>
  The entries of the repository's tests, seven days from 19 January 2026.
\<close>

theorem getEntriesInNextDays_sorted_in_window_witness:
  "getEntriesInNextDays
     [ExactDateEntry ''Today'' 1 19 None, ExactDateEntry ''Tomorrow'' 1 20 None,
      ExactDateEntry ''Next Week'' 1 26 None, ExactDateEntry ''Next Month'' 2 19 None,
      ExactDateEntry ''Next Year'' 1 19 None,
      ExactDateWithYearEntry ''Past Event'' 1 1 2000 None] 7 (newDate 2026 0 19)
     = [(ExactDateEntry ''Tomorrow'' 1 20 None, newDate 2026 0 20),
        (ExactDateEntry ''Next Week'' 1 26 None, newDate 2026 0 26)]
   \<and> sorted [newDate 2026 0 20, newDate 2026 0 26]
   \<and> newDate 2026 0 19 \<le> newDate 2026 0 20
   \<and> newDate 2026 0 26 \<le> newDate 2026 0 19 + 7 * msPerDay"
proof -
  have e: "getEntriesInNextDays
     [ExactDateEntry ''Today'' 1 19 None, ExactDateEntry ''Tomorrow'' 1 20 None,
      ExactDateEntry ''Next Week'' 1 26 None, ExactDateEntry ''Next Month'' 2 19 None,
      ExactDateEntry ''Next Year'' 1 19 None,
      ExactDateWithYearEntry ''Past Event'' 1 1 2000 None] 7 (newDate 2026 0 19)
     = [(ExactDateEntry ''Tomorrow'' 1 20 None, newDate 2026 0 20),
        (ExactDateEntry ''Next Week'' 1 26 None, newDate 2026 0 26)]"
    by code_simp
  show ?thesis
    using getEntriesInNextDays_sorted_in_window[of
      "[ExactDateEntry ''Today'' 1 19 None, ExactDateEntry ''Tomorrow'' 1 20 None,
      ExactDateEntry ''Next Week'' 1 26 None, ExactDateEntry ''Next Month'' 2 19 None,
      ExactDateEntry ''Next Year'' 1 19 None,
      ExactDateWithYearEntry ''Past Event'' 1 1 2000 None]" 7 "newDate 2026 0 19"]
    unfolding e by simp
qed

section \<open>Every entry: the next occurrence and the empty window\<close>

















text \<open>
  The bounds of the data model are needed here as well: for the entry with day 0
  that the line \<^verbatim>\<open>X,01/00\<close> parses to, the next occurrence on 31 December 2026,
  at midnight, is that same date, and the window of no days holds it.
\<close>

lemma window_0_day_0_not_empty:
  "getFullYear (newDate 2026 11 31) < 9999
   \<and> TimeWithinDay (newDate 2026 11 31) = 0
   \<and> getEntriesInNextDays [ExactDateEntry ''X'' 1 0 None] 0 (newDate 2026 11 31)
       = [(ExactDateEntry ''X'' 1 0 None, newDate 2026 11 31)]"
  by code_simp

section \<open>The third Monday of January\<close>

text \<open>
  Claim C3. For the \<^verbatim>\<open>RelativeDateEntry\<close> with occurrence 3, day of the week 1
  (Monday) and month 1 (January), \<^verbatim>\<open>getNextOccurrence\<close> from 1 January 2026 is
  the date 19 January 2026, a Monday.
\<close>

theorem third_Monday_of_January_2026:
  "getNextOccurrence (RelativeDateEntry nm 3 1 1 src) (newDate 2026 0 1) = newDate 2026 0 19
   \<and> getFullYear (newDate 2026 0 19) = 2026 \<and> getMonth (newDate 2026 0 19) = 0
   \<and> getDate (newDate 2026 0 19) = 19 \<and> getDay (newDate 2026 0 19) = 1"
proof -
  have "RelativeDateEntry_getNextOccurrence 3 1 1 (newDate 2026 0 1) = newDate 2026 0 19"
    by code_simp
  moreover have "getFullYear (newDate 2026 0 19) = 2026 \<and> getMonth (newDate 2026 0 19) = 0
   \<and> getDate (newDate 2026 0 19) = 19 \<and> getDay (newDate 2026 0 19) = 1"
    by code_simp
  ultimately show ?thesis by simp
qed

section \<open>The dated entry\<close>

text \<open>
  Claim C7. For every \<^verbatim>\<open>ExactDateWithYearEntry\<close> with year \<open>yr\<close>, month \<open>mo\<close> and
  day \<open>dy\<close>, and every date \<open>q\<close>, \<^verbatim>\<open>occursOn(q)\<close> is true if and only if the year
  of \<open>q\<close> is \<open>yr\<close>, its month, counted from 1, is \<open>mo\<close>, and its day is \<open>dy\<close>. So a
  date of another year never matches; among them the anniversary that
  \<^verbatim>\<open>getAnniversary\<close> makes for another year \<open>yr'\<close> (not from 0 to 99, which the
  constructor of the date reads as 1900 to 1999), when the month is from 1 to 12
  and the day from 1 to 31.
\<close>

theorem FixedDated_occursOn_iff:
  "(occursOn (ExactDateWithYearEntry nm mo dy yr src) q
      \<longleftrightarrow> getFullYear q = yr \<and> getMonth q + 1 = mo \<and> getDate q = dy)
   \<and> (getFullYear q \<noteq> yr \<longrightarrow> \<not> occursOn (ExactDateWithYearEntry nm mo dy yr src) q)
   \<and> (1 \<le> mo \<and> mo \<le> 12 \<and> 1 \<le> dy \<and> dy \<le> 31 \<and> yr' \<noteq> yr \<and> (yr' < 0 \<or> 99 < yr')
        \<longrightarrow> \<not> occursOn (ExactDateWithYearEntry nm mo dy yr src)
               (ExactDateWithYearEntry_getAnniversary mo dy yr'))"
proof -
  have "getFullYear (newDate yr' (mo - 1) dy) = yr'"
    if "1 \<le> mo" "mo \<le> 12" "1 \<le> dy" "dy \<le> 31" "yr' < 0 \<or> 99 < yr'"
    using year_of_newDate[of "mo - 1" dy yr'] that by auto
  then show ?thesis
    by (auto simp: ExactDateWithYearEntry_occursOn_def ExactDateWithYearEntry_getAnniversary_def)
qed

text \<open>
  The tests of the repository: the event of 19 August 1919 occurs on that date
  and not on its anniversary in 2019; on 19 August 2026 it is 107 years old.
\<close>

theorem FixedDated_occursOn_iff_witness:
  "occursOn (ExactDateWithYearEntry ''Test Event'' 8 19 1919 None) (newDate 1919 7 19)
   \<and> ExactDateWithYearEntry_getYearsSince 1919 (newDate 2026 7 19) = 107
   \<and> ExactDateWithYearEntry_getAnniversary 8 19 2019 = newDate 2019 7 19
   \<and> getFullYear (newDate 2019 7 19) \<noteq> 1919
   \<and> getMonth (newDate 2019 7 19) + 1 = 8 \<and> getDate (newDate 2019 7 19) = 19
   \<and> \<not> occursOn (ExactDateWithYearEntry ''Test Event'' 8 19 1919 None) (newDate 2019 7 19)"
proof -
  have a: "getFullYear (newDate 1919 7 19) = 1919 \<and> getMonth (newDate 1919 7 19) + 1 = 8
      \<and> getDate (newDate 1919 7 19) = 19"
    by code_simp
  have b: "getFullYear (newDate 2019 7 19) \<noteq> 1919"
    by code_simp
  have c: "getMonth (newDate 2019 7 19) + 1 = 8 \<and> getDate (newDate 2019 7 19) = 19"
    by code_simp
  have d: "ExactDateWithYearEntry_getAnniversary 8 19 2019 = newDate 2019 7 19"
    by (simp add: ExactDateWithYearEntry_getAnniversary_def)
  have y: "ExactDateWithYearEntry_getYearsSince 1919 (newDate 2026 7 19) = 107"
    by code_simp
  show ?thesis
    using a b c d y
      FixedDated_occursOn_iff[of "''Test Event''" 8 19 1919 None "newDate 1919 7 19"]
      FixedDated_occursOn_iff[of "''Test Event''" 8 19 1919 None "newDate 2019 7 19"]
    by blast
qed

section \<open>Entries on a month and day\<close>

text \<open>
  Claim C8. For every list of entries and every month and day,
  \<^verbatim>\<open>getEntriesOnMonthDay\<close> returns, in their order, exactly the entries of the
  two fixed classes whose month and day fields are the arguments, and never a
  \<^verbatim>\<open>RelativeDateEntry\<close>, whatever the dates on which that entry falls.
\<close>

theorem getEntriesOnMonthDay_fixed_only:
  "getEntriesOnMonthDay entries mo dy = filter (\<lambda>e. rawMonthDay e = Some (mo, dy)) entries
   \<and> (\<forall>e \<in> set (getEntriesOnMonthDay entries mo dy). \<not> isRelativeDateEntry e)"
proof -
  have "(case e of ExactDateEntry _ m d _ \<Rightarrow> m = mo \<and> d = dy
         | ExactDateWithYearEntry _ m d _ _ \<Rightarrow> m = mo \<and> d = dy
         | RelativeDateEntry _ _ _ _ _ \<Rightarrow> False) = (rawMonthDay e = Some (mo, dy))" for e
    by (cases e) simp_all
  then have a: "getEntriesOnMonthDay entries mo dy
                  = filter (\<lambda>e. rawMonthDay e = Some (mo, dy)) entries"
    by (simp add: getEntriesOnMonthDay_def)
  have "rawMonthDay e = Some (mo, dy) \<Longrightarrow> \<not> isRelativeDateEntry e" for e
    by (cases e) simp_all
  then show ?thesis unfolding a by simp
qed

text \<open>
  The third Monday of January occurs on 19 January 2026, and the query for
  19 January leaves it out: of the two entries of that day and this one, the two
  come back.
\<close>

theorem getEntriesOnMonthDay_fixed_only_witness:
  "occursOn (RelativeDateEntry ''MLK Day'' 3 1 1 None) (newDate 2026 0 19)
   \<and> getMonth (newDate 2026 0 19) + 1 = 1 \<and> getDate (newDate 2026 0 19) = 19
   \<and> getEntriesOnMonthDay
        [ExactDateEntry ''Today'' 1 19 None, RelativeDateEntry ''MLK Day'' 3 1 1 None,
         ExactDateEntry ''Tomorrow'' 1 20 None,
         ExactDateWithYearEntry ''Past Event'' 1 19 2000 None] 1 19
       = [ExactDateEntry ''Today'' 1 19 None, ExactDateWithYearEntry ''Past Event'' 1 19 2000 None]
   \<and> \<not> isRelativeDateEntry (ExactDateEntry ''Today'' 1 19 None)
   \<and> \<not> isRelativeDateEntry (ExactDateWithYearEntry ''Past Event'' 1 19 2000 None)"
proof -
  have o: "occursOn (RelativeDateEntry ''MLK Day'' 3 1 1 None) (newDate 2026 0 19)
     \<and> getMonth (newDate 2026 0 19) + 1 = 1 \<and> getDate (newDate 2026 0 19) = 19"
    by code_simp
  show ?thesis
    using o getEntriesOnMonthDay_fixed_only[of
        "[ExactDateEntry ''Today'' 1 19 None, RelativeDateEntry ''MLK Day'' 3 1 1 None,
         ExactDateEntry ''Tomorrow'' 1 20 None,
         ExactDateWithYearEntry ''Past Event'' 1 19 2000 None]" 1 19]
    by simp
qed

section \<open>Parsing\<close>

subsection \<open>The month and day sides of a date token\<close>

lemma parseInt_None_iff: "parseInt s = None \<longleftrightarrow> \<not> hasLeadingInteger s"
proof (cases "dropWhile isWhiteSpace s")
  case Nil
  show ?thesis
    unfolding parseInt_def hasLeadingInteger_def Let_def Nil by simp
next
  case (Cons c r)
  show ?thesis
    unfolding parseInt_def hasLeadingInteger_def Let_def Cons
    by (cases r) (auto simp: takeWhile_eq_Nil_iff)
qed

text \<open>
  Claim C2, as the code has it. For every line with a name and a date token
  that holds a slash, let the month side and the day side be the first two parts
  of the token at its slashes. Parsing yields no entry exactly when one of the
  sides does not start, after white space and a sign if any, with a digit;
  otherwise it yields an entry of one of the fixed classes whose month and day
  are the integers that \<^verbatim>\<open>parseInt\<close> reads at the start of the sides, whatever
  follows the digits.
\<close>

theorem parseCSVLine_slash_None_iff:
  assumes "str_split CHR '','' line = p0 # p1 # rest" "trim p0 \<noteq> []"
    and "str_includes (trim p1) ''/''"
    and "str_split CHR ''/'' (trim p1) = monthStr # dayStr # others"
  shows "(parseCSVLine line src = None
            \<longleftrightarrow> \<not> (hasLeadingInteger monthStr \<and> hasLeadingInteger dayStr))
         \<and> (\<forall>e. parseCSVLine line src = Some e \<longrightarrow>
               rawMonthDay e = Some (the (parseInt monthStr), the (parseInt dayStr)))"
proof -
  have ne: "trim p1 \<noteq> []" using assms(3) by auto
  have e: "monthStr = [] \<Longrightarrow> \<not> hasLeadingInteger monthStr"
    "dayStr = [] \<Longrightarrow> \<not> hasLeadingInteger dayStr"
    by (simp_all add: hasLeadingInteger_def)
  show ?thesis
  proof (cases "parseInt monthStr")
    case None
    then show ?thesis
      using assms ne parseInt_None_iff[of monthStr]
      by (simp add: parseCSVLine_def Let_def)
  next
    case m: (Some mo)
    show ?thesis
    proof (cases "parseInt dayStr")
      case None
      then show ?thesis
        using assms ne m parseInt_None_iff[of dayStr]
        by (simp add: parseCSVLine_def Let_def)
    next
      case d: (Some dy)
      have h: "hasLeadingInteger monthStr" "hasLeadingInteger dayStr"
        using m d parseInt_None_iff[of monthStr] parseInt_None_iff[of dayStr] by auto
      then have n: "monthStr \<noteq> []" "dayStr \<noteq> []" using e by auto
      show ?thesis
        using assms ne m d h n
        by (auto simp: parseCSVLine_def Let_def split: list.splits option.splits)
    qed
  qed
qed

text \<open>
  Claim C2 as stated fails for the line \<^verbatim>\<open>X,1a/2\<close>: the month side \<^verbatim>\<open>1a\<close> is
  not a valid integer, and the line parses to the entry of 2 January.
\<close>

theorem parseCSVLine_trailing_letter_counterexample:
  "\<not> isInteger ''1a'' \<and> str_includes ''1a/2'' ''/''
   \<and> str_split CHR ''/'' ''1a/2'' = [''1a'', ''2'']
   \<and> parseCSVLine ''X,1a/2'' None = Some (ExactDateEntry ''X'' 1 2 None)"
  by code_simp

text \<open>
  The same line, and one whose month side starts with a letter, which yields no
  entry.
\<close>

theorem parseCSVLine_slash_None_iff_witness:
  "str_split CHR '','' ''X,1a/2'' = [''X'', ''1a/2''] \<and> trim ''X'' \<noteq> []
   \<and> str_includes (trim ''1a/2'') ''/''
   \<and> str_split CHR ''/'' (trim ''1a/2'') = [''1a'', ''2'']
   \<and> hasLeadingInteger ''1a'' \<and> hasLeadingInteger ''2''
   \<and> parseCSVLine ''X,1a/2'' None \<noteq> None
   \<and> \<not> hasLeadingInteger ''a1''
   \<and> parseCSVLine ''X,a1/2'' None = None"
proof -
  have a: "str_split CHR '','' ''X,1a/2'' = [''X'', ''1a/2'']" "trim ''X'' \<noteq> []"
    "str_includes (trim ''1a/2'') ''/''"
    "str_split CHR ''/'' (trim ''1a/2'') = [''1a'', ''2'']"
    by code_simp+
  have b: "str_split CHR '','' ''X,a1/2'' = [''X'', ''a1/2'']"
    "str_includes (trim ''a1/2'') ''/''"
    "str_split CHR ''/'' (trim ''a1/2'') = [''a1'', ''2'']"
    by code_simp+
  have c: "hasLeadingInteger ''1a'' \<and> hasLeadingInteger ''2''" "\<not> hasLeadingInteger ''a1''"
    by code_simp+
  show ?thesis
    using a b c
      parseCSVLine_slash_None_iff[OF a(1) a(2) a(3) a(4), of None]
      parseCSVLine_slash_None_iff[OF b(1) a(2) b(2) b(3), of None]
    by simp
qed

subsection \<open>The three formats of a line\<close>

lemma str_split_first_field:
  assumes "sep \<notin> set p0"
  shows "str_split sep (p0 @ sep # rest) = p0 # str_split sep rest"
  using assms by (induction p0) auto

text \<open>
  Claim C6. The token \<^verbatim>\<open>3MondayJan\<close> parses to occurrence 3, day of the week 1
  and month 1. For every name that has no comma and is not white space alone,
  the line of the name and the date token \<^verbatim>\<open>01/01\<close>, with no year, parses to
  the \<^verbatim>\<open>ExactDateEntry\<close> of month 1 and day 1; the line of the name, the date
  token \<^verbatim>\<open>08/19\<close> and the year token \<^verbatim>\<open>1919\<close> parses to the
  \<^verbatim>\<open>ExactDateWithYearEntry\<close> of month 8, day 19 and year 1919; and the line of
  the name and \<^verbatim>\<open>3MondayJan\<close> to the \<^verbatim>\<open>RelativeDateEntry\<close> of those three numbers.
\<close>

theorem parse_the_three_formats:
  assumes "CHR '','' \<notin> set nm" "trim nm \<noteq> []"
  shows "parseRelativeDate ''3MondayJan'' = Inr \<lparr>occurrence = 3, dayOfWeek = 1, month = 1\<rparr>
    \<and> parseCSVLine (nm @ '',01/01'') src = Some (ExactDateEntry (trim nm) 1 1 src)
    \<and> parseCSVLine (nm @ '',08/19,1919'') src
        = Some (ExactDateWithYearEntry (trim nm) 8 19 1919 src)
    \<and> parseCSVLine (nm @ '',3MondayJan'') src = Some (RelativeDateEntry (trim nm) 3 1 1 src)"
proof -
  have r: "parseRelativeDate ''3MondayJan'' = Inr \<lparr>occurrence = 3, dayOfWeek = 1, month = 1\<rparr>"
    by code_simp
  have s1: "str_split CHR '','' (nm @ '',01/01'') = [nm, ''01/01'']"
    using str_split_first_field[OF assms(1), of "''01/01''"] by simp
  have s2: "str_split CHR '','' (nm @ '',08/19,1919'') = [nm, ''08/19'', ''1919'']"
    using str_split_first_field[OF assms(1), of "''08/19,1919''"] by simp
  have s3: "str_split CHR '','' (nm @ '',3MondayJan'') = [nm, ''3MondayJan'']"
    using str_split_first_field[OF assms(1), of "''3MondayJan''"] by simp
  have t: "trim ''01/01'' = ''01/01''" "trim ''08/19'' = ''08/19''" "trim ''1919'' = ''1919''"
    "trim ''3MondayJan'' = ''3MondayJan''"
    by code_simp+
  have i: "str_includes ''01/01'' ''/''" "str_includes ''08/19'' ''/''"
    "\<not> str_includes ''3MondayJan'' ''/''"
    by code_simp+
  have d: "str_split CHR ''/'' ''01/01'' = [''01'', ''01'']"
    "str_split CHR ''/'' ''08/19'' = [''08'', ''19'']"
    by code_simp+
  have n: "parseInt ''01'' = Some 1" "parseInt ''08'' = Some 8" "parseInt ''19'' = Some 19"
    "parseInt ''1919'' = Some 1919"
    by code_simp+
  have a: "parseCSVLine (nm @ '',01/01'') src = Some (ExactDateEntry (trim nm) 1 1 src)"
    using assms(2) by (simp add: parseCSVLine_def Let_def s1 t i d n del: str_includes.simps)
  have b: "parseCSVLine (nm @ '',08/19,1919'') src
        = Some (ExactDateWithYearEntry (trim nm) 8 19 1919 src)"
    using assms(2) by (simp add: parseCSVLine_def Let_def s2 t i d n del: str_includes.simps)
  have c: "parseCSVLine (nm @ '',3MondayJan'') src = Some (RelativeDateEntry (trim nm) 3 1 1 src)"
    using assms(2) by (simp add: parseCSVLine_def Let_def s3 t i r del: str_includes.simps)
  show ?thesis using r a b c by simp
qed

text \<open>The name of the repository's test, before each of the three tokens.\<close>

theorem parse_the_three_formats_witness:
  "CHR '','' \<notin> set ''Afghanistan'' \<and> trim ''Afghanistan'' \<noteq> []
   \<and> parseCSVLine ''Afghanistan,01/01'' None = Some (ExactDateEntry ''Afghanistan'' 1 1 None)
   \<and> parseCSVLine ''Afghanistan,08/19,1919'' None
        = Some (ExactDateWithYearEntry ''Afghanistan'' 8 19 1919 None)
   \<and> parseCSVLine ''Afghanistan,3MondayJan'' None
        = Some (RelativeDateEntry ''Afghanistan'' 3 1 1 None)"
proof -
  have h: "CHR '','' \<notin> set ''Afghanistan''" "trim ''Afghanistan'' \<noteq> []"
    by code_simp+
  have t: "trim ''Afghanistan'' = ''Afghanistan''" by code_simp
  show ?thesis
    using h parse_the_three_formats[OF h, of None] by (simp add: t)
qed

subsection \<open>The occurrence digit\<close>

text \<open>
  Claim C10. The parser of relative dates takes any digit from 0 to 9 at the
  start of the token as the occurrence, with no check against the range 1 to 5:
  the token of a digit and \<^verbatim>\<open>MondayJan\<close> parses to the value of the digit, Monday
  and January; so \<^verbatim>\<open>0MondayJan\<close> parses to occurrence 0, and a line with that
  token to a \<^verbatim>\<open>RelativeDateEntry\<close> with occurrence 0.
\<close>

theorem parseRelativeDate_any_digit:
  "(isDigit c \<longrightarrow>
      parseRelativeDate (c # ''MondayJan'')
        = Inr \<lparr>occurrence = digitValue c, dayOfWeek = 1, month = 1\<rparr>
      \<and> 0 \<le> digitValue c \<and> digitValue c \<le> 9)
   \<and> parseRelativeDate ''0MondayJan'' = Inr \<lparr>occurrence = 0, dayOfWeek = 1, month = 1\<rparr>
   \<and> parseCSVLine ''X,0MondayJan'' src = Some (RelativeDateEntry ''X'' 0 1 1 src)"
proof -
  have i: "\<not> str_includes ''MondayJan'' ''Sunday''" "str_includes ''MondayJan'' ''Monday''"
    by code_simp+
  have g: "parseRelativeDate (c # ''MondayJan'')
        = Inr \<lparr>occurrence = digitValue c, dayOfWeek = 1, month = 1\<rparr>" if "isDigit c"
    using that i
    by (simp add: parseRelativeDate_def Let_def DAYS_OF_WEEK_def MONTHS_def
        str_startsWith_def str_endsWith_def)
  have v: "0 \<le> digitValue c \<and> digitValue c \<le> 9" if "isDigit c"
    using that by (simp add: isDigit_def digitValue_def)
  have z: "parseRelativeDate ''0MondayJan'' = Inr \<lparr>occurrence = 0, dayOfWeek = 1, month = 1\<rparr>"
    by code_simp
  have s: "str_split CHR '','' ''X,0MondayJan'' = [''X'', ''0MondayJan'']"
    "trim ''X'' = ''X''" "trim ''0MondayJan'' = ''0MondayJan''"
    "\<not> str_includes ''0MondayJan'' ''/''"
    by code_simp+
  have l: "parseCSVLine ''X,0MondayJan'' src = Some (RelativeDateEntry ''X'' 0 1 1 src)"
    by (simp add: parseCSVLine_def Let_def s z del: str_includes.simps)
  show ?thesis using g v z l by simp
qed

text \<open>The digit 9, as far from the range as a digit goes.\<close>

theorem parseRelativeDate_any_digit_witness:
  "isDigit CHR ''9''
   \<and> parseRelativeDate ''9MondayJan'' = Inr \<lparr>occurrence = 9, dayOfWeek = 1, month = 1\<rparr>"
proof -
  have d: "isDigit CHR ''9''" "digitValue CHR ''9'' = 9" by code_simp+
  show ?thesis
    using d parseRelativeDate_any_digit[of "CHR ''9''" None] by simp
qed

end
